theory Spec2Isabelle
  imports Main "HOL-Library.Word"
begin

unbundle bit_operations_syntax

section \<open>Data model of \<open>base/loader/object_file.hh\<close>\<close>

text \<open>
  \<open>Addr\<close> comes from \<open>base/types.hh\<close>, which is not part of the sources at hand; it is an
  unsigned integer of a fixed width. The width is kept as a type parameter: an address is
  an \<open>'a word\<close>, and the records below are polymorphic in the address type. \<open>size_t\<close>
  values (\<open>len\<close>, \<open>Segment::size\<close>) are converted to \<open>Addr\<close> wherever the code computes
  with them (\<open>seg->base + seg->size\<close>), so they are words of the same width. A
  \<open>uint8_t *\<close> buffer is the list of the bytes it points to.
\<close>

type_synonym byte = "8 word"

datatype Arch =
  UnknownArch | Alpha | SPARC64 | SPARC32 | Mips | X86_64 | I386
  | Arm64 | Arm | Thumb | Power | Riscv64 | Riscv32

datatype OpSys =
  UnknownOpSys | Tru64 | Linux | Solaris | LinuxArmOABI | FreeBSD

text \<open>\<open>static const Addr maxAddr = std::numeric_limits<Addr>::max()\<close>: all bits set.\<close>

definition maxAddr :: "'a::len word" where
  "maxAddr = - 1"

text \<open>\<open>struct Segment\<close>; the field \<open>size\<close> is named \<open>size_seg\<close> here.\<close>

record 'addr Segment =
  name :: string
  base :: 'addr
  data :: "byte list"
  size_seg :: 'addr

text \<open>The data members of \<open>class ObjectFile\<close>.\<close>

record 'addr ObjectFile =
  filename :: string
  fileData :: "byte list"
  len :: 'addr
  loadOffset :: 'addr
  loadMask :: 'addr
  arch :: Arch
  opSys :: OpSys
  entry :: 'addr
  segments :: "'addr Segment list"

text \<open>\<open>panic(...)\<close> ends the program; it is the only error of this header.\<close>

datatype error = Panic string

section \<open>Operations defined in the header\<close>

text \<open>\<open>addSegment\<close> (protected): appends a new segment at the back.\<close>

definition addSegment ::
  "string \<Rightarrow> 'addr \<Rightarrow> byte list \<Rightarrow> 'addr \<Rightarrow> 'addr ObjectFile \<Rightarrow> 'addr ObjectFile" where
  "addSegment nm b d sz obj =
     obj\<lparr>segments := segments obj @ [\<lparr>name = nm, base = b, data = d, size_seg = sz\<rparr>]\<rparr>"

text \<open>
  \<open>maxSegmentAddr\<close>: the loop over \<open>segments\<close> with the running maximum as accumulator,
  started at 0. \<open>end\<close> is computed in \<open>Addr\<close>, so the sum wraps.
\<close>

fun maxSegmentAddr_loop :: "'a::len word Segment list \<Rightarrow> 'a word \<Rightarrow> 'a word" where
  "maxSegmentAddr_loop [] max_acc = max_acc"
| "maxSegmentAddr_loop (seg # segs) max_acc =
     (let end = base seg + size_seg seg
      in maxSegmentAddr_loop segs (if end > max_acc then end else max_acc))"

definition maxSegmentAddr :: "'a::len word ObjectFile \<Rightarrow> 'a word" where
  "maxSegmentAddr obj = maxSegmentAddr_loop (segments obj) 0"

text \<open>\<open>minSegmentAddr\<close>: the running minimum, started at \<open>maxAddr\<close>.\<close>

fun minSegmentAddr_loop :: "'a::len word Segment list \<Rightarrow> 'a word \<Rightarrow> 'a word" where
  "minSegmentAddr_loop [] min_acc = min_acc"
| "minSegmentAddr_loop (seg # segs) min_acc =
     minSegmentAddr_loop segs (if base seg < min_acc then base seg else min_acc)"

definition minSegmentAddr :: "'a::len word ObjectFile \<Rightarrow> 'a word" where
  "minSegmentAddr obj = minSegmentAddr_loop (segments obj) maxAddr"

text \<open>\<open>contains\<close>: returns at the first segment whose test succeeds.\<close>

fun contains_loop :: "'a::len word Segment list \<Rightarrow> 'a word \<Rightarrow> bool" where
  "contains_loop [] addr = False"
| "contains_loop (seg # segs) addr =
     (let start = base seg; end = base seg + size_seg seg
      in if addr \<ge> start \<and> addr < end then True else contains_loop segs addr)"

definition contains :: "'a::len word ObjectFile \<Rightarrow> 'a word \<Rightarrow> bool" where
  "contains obj addr = contains_loop (segments obj) addr"

text \<open>\<open>setLoadOffset\<close> and \<open>setLoadMask\<close>: the only setters of the class.\<close>

definition setLoadOffset :: "'addr \<Rightarrow> 'addr ObjectFile \<Rightarrow> 'addr ObjectFile" where
  "setLoadOffset val obj = obj\<lparr>loadOffset := val\<rparr>"

definition setLoadMask :: "'addr \<Rightarrow> 'addr ObjectFile \<Rightarrow> 'addr ObjectFile" where
  "setLoadMask val obj = obj\<lparr>loadMask := val\<rparr>"

text \<open>
  \<open>SymbolTable\<close> is only forward-declared; the specification gives it one operation,
  \<open>insert(name, address)\<close>, so a table is the list of the entries inserted so far.
\<close>

type_synonym 'addr SymbolTable = "(string \<times> 'addr) list"

text \<open>
  \<open>loadWeakSymbols\<close>, the base-class body \<open>{ return false; }\<close>. The method is not
  \<open>const\<close> and receives the table by pointer, so the model returns the result together
  with the object and the table as they are after the call.
\<close>

definition loadWeakSymbols ::
  "'addr SymbolTable \<Rightarrow> 'addr \<Rightarrow> 'addr \<Rightarrow> 'addr \<Rightarrow> 'addr ObjectFile
     \<Rightarrow> bool \<times> 'addr ObjectFile \<times> 'addr SymbolTable" where
  "loadWeakSymbols symtab sym_base sym_offset sym_mask obj = (False, obj, symtab)"

text \<open>The other virtual members with a body in the base class.\<close>

definition getInterpreter :: "'addr ObjectFile \<Rightarrow> 'addr ObjectFile option" where
  "getInterpreter obj = None"

definition relocatable :: "'addr ObjectFile \<Rightarrow> bool" where
  "relocatable obj = False"

definition mapSize :: "'addr ObjectFile \<Rightarrow> error + 'addr" where
  "mapSize obj =
     Inl (Panic (''mapSize() should only be called on relocatable objects'' @ [CHR 0x0A]))"

definition updateBias :: "'addr \<Rightarrow> 'addr ObjectFile \<Rightarrow> error + 'addr ObjectFile" where
  "updateBias bias_addr obj =
     Inl (Panic (''updateBias() should only be called on relocatable objects'' @ [CHR 0x0A]))"

definition bias :: "'a::len word ObjectFile \<Rightarrow> 'a word" where
  "bias obj = 0"

definition hasTLS :: "'addr ObjectFile \<Rightarrow> bool" where
  "hasTLS obj = False"

definition getArch :: "'addr ObjectFile \<Rightarrow> Arch" where
  "getArch obj = arch obj"

definition getOpSys :: "'addr ObjectFile \<Rightarrow> OpSys" where
  "getOpSys obj = opSys obj"

definition entryPoint :: "'addr ObjectFile \<Rightarrow> 'addr" where
  "entryPoint obj = entry obj"

section \<open>The intervals of the specification\<close>

text \<open>
  The interval of the specification, read over the natural numbers: \<open>addr\<close> is one of the
  \<open>size\<close> addresses that start at \<open>base\<close>. This definition follows the words of the
  specification and is only compared with the code.
\<close>

definition in_segment_spec :: "'a::len word Segment \<Rightarrow> 'a word \<Rightarrow> bool" where
  "in_segment_spec seg addr \<longleftrightarrow>
     unat (base seg) \<le> unat addr \<and> unat addr < unat (base seg) + unat (size_seg seg)"

definition contains_spec :: "'a::len word ObjectFile \<Rightarrow> 'a word \<Rightarrow> bool" where
  "contains_spec obj addr = list_ex (\<lambda>seg. in_segment_spec seg addr) (segments obj)"

text \<open>A segment whose end \<open>base + size\<close> is above the largest address.\<close>

definition end_overflows :: "'a::len word Segment \<Rightarrow> bool" where
  "end_overflows seg \<longleftrightarrow> 2 ^ LENGTH('a) \<le> unat (base seg) + unat (size_seg seg)"

section \<open>Operations declared in the header, modelled from the specification\<close>

text \<open>
  Modelled from the spec: the body of the constructor \<open>ObjectFile(filename, len, data,
  arch, opSys)\<close>, which the header only declares. An Object File is "constructed once by
  a concrete parser from raw bytes + detected arch/OS"; the load offset and the load mask
  get the initialisers of the header (\<open>0\<close> and \<open>maxAddr\<close>, "no masking"), the segment
  collection is empty. The header leaves \<open>entry\<close> without an initialiser ("meaningful
  only after successful parse"); it is 0 here and nothing below depends on it.
\<close>

definition ObjectFile_new ::
  "string \<Rightarrow> 'a::len word \<Rightarrow> byte list \<Rightarrow> Arch \<Rightarrow> OpSys \<Rightarrow> 'a word ObjectFile" where
  "ObjectFile_new fname l d a os =
     \<lparr>filename = fname, fileData = d, len = l, loadOffset = 0, loadMask = maxAddr,
      arch = a, opSys = os, entry = 0, segments = []\<rparr>"

text \<open>
  The memory sink of the specification, \<open>write(address, bytes) -> success|failure\<close>: a
  sink is any state \<open>'m\<close> with a write function \<open>wr\<close>; \<open>None\<close> is a rejected write, which
  leaves the sink as it was.
\<close>

type_synonym ('addr, 'm) sink_write = "'addr \<Rightarrow> byte list \<Rightarrow> 'm \<Rightarrow> 'm option"

text \<open>
  Modelled from the spec: the address transform of \<open>loadSegment\<close>, whose body is not in
  the header: "load offset (added to every loaded address), load mask (bitwise-ANDed
  with every loaded address)".
\<close>

definition load_addr :: "'a::len word ObjectFile \<Rightarrow> 'a word Segment \<Rightarrow> 'a word" where
  "load_addr obj seg = (base seg + loadOffset obj) AND loadMask obj"

text \<open>
  Modelled from the spec: the bytes that \<open>loadSegment\<close>, whose body is not in the header,
  hands to the sink for a segment: the \<open>size\<close> bytes at \<open>data\<close>.
\<close>

definition segment_bytes :: "'a::len word Segment \<Rightarrow> byte list" where
  "segment_bytes seg = take (unat (size_seg seg)) (data seg)"

text \<open>
  Modelled from the spec: the bodies of \<open>loadSegment\<close> and \<open>loadSegments\<close>, which the
  header only declares. \<open>loadSegments\<close> "writes every Segment's bytes into the destination
  memory interface at \<open>(segment.base + loadOffset) & loadMask\<close>; returns success/failure;
  a segment whose transformed address range cannot be accepted by the sink is a reported
  failure, not fatal". The segments are written in their order, and the first rejected
  write ends the call with the result \<open>false\<close>. A fatal end would be \<open>Inl\<close>.
\<close>

definition loadSegment ::
  "('a::len word, 'm) sink_write \<Rightarrow> 'a word ObjectFile \<Rightarrow> 'a word Segment \<Rightarrow> 'm \<Rightarrow> bool \<times> 'm"
  where
  "loadSegment wr obj seg m =
     (case wr (load_addr obj seg) (segment_bytes seg) m of
        None \<Rightarrow> (False, m)
      | Some m' \<Rightarrow> (True, m'))"

text \<open>
  Modelled from the spec: the loop of \<open>loadSegments\<close>, whose body is not in the header;
  it goes through the segments in their order and returns at the first failure.
\<close>

fun loadSegments_loop ::
  "('a::len word, 'm) sink_write \<Rightarrow> 'a word ObjectFile \<Rightarrow> 'a word Segment list \<Rightarrow> 'm
     \<Rightarrow> bool \<times> 'm" where
  "loadSegments_loop wr obj [] m = (True, m)"
| "loadSegments_loop wr obj (seg # segs) m =
     (case loadSegment wr obj seg m of
        (False, m') \<Rightarrow> (False, m')
      | (True, m') \<Rightarrow> loadSegments_loop wr obj segs m')"

text \<open>
  Modelled from the spec: \<open>loadSegments\<close>, whose body is not in the header, on the
  segments of the object; it always returns its success/failure result.
\<close>

definition loadSegments ::
  "('a::len word, 'm) sink_write \<Rightarrow> 'a word ObjectFile \<Rightarrow> 'm \<Rightarrow> error + bool \<times> 'm" where
  "loadSegments wr obj m = Inr (loadSegments_loop wr obj (segments obj) m)"

text \<open>
  What the sink is asked to do, for comparison: the writes of an Object File, one per
  segment in order, and a sink performing a list of writes until one is rejected.
\<close>

definition segment_writes ::
  "'a::len word ObjectFile \<Rightarrow> 'a word Segment list \<Rightarrow> ('a word \<times> byte list) list" where
  "segment_writes obj segs = map (\<lambda>seg. (load_addr obj seg, segment_bytes seg)) segs"

fun sink_writes :: "('addr, 'm) sink_write \<Rightarrow> ('addr \<times> byte list) list \<Rightarrow> 'm \<Rightarrow> 'm option" where
  "sink_writes wr [] m = Some m"
| "sink_writes wr ((a, bs) # ws) m =
     (case wr a bs m of None \<Rightarrow> None | Some m' \<Rightarrow> sink_writes wr ws m')"

text \<open>
  A sink for the examples: it accepts a write whose range ends at or below \<open>limit\<close> and
  keeps the accepted writes in their order.
\<close>

definition recording_sink :: "nat \<Rightarrow> ('a::len word, ('a word \<times> byte list) list) sink_write" where
  "recording_sink limit a bs m =
     (if unat a + length bs \<le> limit then Some (m @ [(a, bs)]) else None)"

text \<open>
  The outcome of offering an object file to one loader (\<open>Loader::load\<close> is pure virtual):
  it declines (\<open>nullptr\<close>), accepts with a Process, or fails loudly for a reason that is
  not a mismatch. A loader is the function from the parameters and the object file to
  its outcome.
\<close>

datatype 'p load_result = Declined | Accepted 'p | Failed string

type_synonym ('pa, 'o, 'p) Loader = "'pa \<Rightarrow> 'o \<Rightarrow> 'p load_result"

datatype load_error = NoCompatibleLoader | LoaderFailed string

text \<open>
  Modelled from the spec: the body of \<open>tryLoaders\<close> and the registry of loaders, which the
  header only declares. The registry is the list of the loaders in registration order.
  \<open>tryLoaders\<close> "iterates registered loaders in registration order; on first accepted
  result, returns that Process immediately; if every loader declines, the overall call
  fails with no compatible loader"; an error of a loader "aborts dispatch immediately".
  Beside the result the model returns the positions of the loaders it has invoked, in
  the order of the invocations.
\<close>

fun tryLoaders_loop ::
  "('pa, 'o, 'p) Loader list \<Rightarrow> 'pa \<Rightarrow> 'o \<Rightarrow> nat \<Rightarrow> nat list \<Rightarrow> (load_error + 'p) \<times> nat list"
  where
  "tryLoaders_loop [] params obj_file i invoked = (Inl NoCompatibleLoader, invoked)"
| "tryLoaders_loop (loader # loaders) params obj_file i invoked =
     (case loader params obj_file of
        Accepted p \<Rightarrow> (Inr p, invoked @ [i])
      | Declined \<Rightarrow> tryLoaders_loop loaders params obj_file (Suc i) (invoked @ [i])
      | Failed r \<Rightarrow> (Inl (LoaderFailed r), invoked @ [i]))"

text \<open>
  Modelled from the spec: \<open>tryLoaders\<close>, whose body is not in the header, starting at
  the first registered loader with nothing invoked yet.
\<close>

definition tryLoaders ::
  "('pa, 'o, 'p) Loader list \<Rightarrow> 'pa \<Rightarrow> 'o \<Rightarrow> (load_error + 'p) \<times> nat list" where
  "tryLoaders registry params obj_file = tryLoaders_loop registry params obj_file 0 []"

text \<open>
  Modelled from the spec: a known format of the factory, whose parsers are not among the
  sources: the test of the "magic/header prefix of the buffer" and the detailed parse,
  which gives no Object File on a corrupt image.
\<close>

record 'addr Format =
  magic_matches :: "byte list \<Rightarrow> bool"
  parse :: "string \<Rightarrow> 'addr \<Rightarrow> byte list \<Rightarrow> 'addr ObjectFile option"

datatype create_error = UnrecognizedFormat | MalformedInput

text \<open>
  Modelled from the spec: the format detection of \<open>createObjectFile\<close>, whose body is not
  in the header: the formats are tried in their fixed priority order, "the first format
  whose magic matches claims the file", a failing parse after that is a hard error, and
  no match is "unrecognized format".
\<close>

fun detect_format ::
  "'addr Format list \<Rightarrow> string \<Rightarrow> 'addr \<Rightarrow> byte list \<Rightarrow> create_error + 'addr ObjectFile" where
  "detect_format [] fname l d = Inl UnrecognizedFormat"
| "detect_format (f # fs) fname l d =
     (if magic_matches f d
      then (case parse f fname l d of None \<Rightarrow> Inl MalformedInput | Some obj \<Rightarrow> Inr obj)
      else detect_format fs fname l d)"

text \<open>
  Modelled from the spec: the body of \<open>createObjectFile\<close>, which the header only declares.
  The input is the buffer with its length, as the constructor takes it. "If the raw-blob
  flag is set: skip format detection, construct a minimal Object File with
  architecture/OS = unknown and a single Segment covering the whole buffer at base
  address 0. Otherwise [...] the first format whose magic matches claims the file"; a
  failing parse after that is a hard error, and no match is "unrecognized format". The
  name of the raw segment is diagnostic only; the specification leaves it open.
\<close>

definition createObjectFile ::
  "'a::len word Format list \<Rightarrow> string \<Rightarrow> 'a word \<Rightarrow> byte list \<Rightarrow> bool
     \<Rightarrow> create_error + 'a word ObjectFile" where
  "createObjectFile formats fname l d raw =
     (if raw
      then Inr (addSegment ''data'' 0 d l (ObjectFile_new fname l d UnknownArch UnknownOpSys))
      else detect_format formats fname l d)"

section \<open>The symbol loaders of a format, modelled from the specification\<close>

text \<open>
  \<open>loadAllSymbols\<close>, \<open>loadGlobalSymbols\<close> and \<open>loadLocalSymbols\<close> are pure virtual: the
  header gives their signatures, and each format parser implements them. The symbols of
  an image belong to the parser and are not among the data members of the base class, so
  they are an argument here: a symbol is a name, its address in the image and its
  binding.
\<close>

datatype Binding = SymLocal | SymGlobal | SymWeak

record 'addr Symbol =
  sym_name :: string
  sym_value :: 'addr
  sym_binding :: Binding

text \<open>
  Modelled from the spec: the address under which a symbol loader, whose body is not among
  the sources, inserts a symbol: "the same base/offset/mask address transform as
  segments", where "\<open>base\<close> parameter is an additional pre-transform origin".
\<close>

definition symbol_addr :: "'a::len word \<Rightarrow> 'a word \<Rightarrow> 'a word \<Rightarrow> 'a word Symbol \<Rightarrow> 'a word" where
  "symbol_addr sym_base sym_offset sym_mask symbol =
     (sym_base + sym_value symbol + sym_offset) AND sym_mask"

text \<open>
  Modelled from the spec: what the three mandatory symbol loaders, whose bodies are not
  among the sources, have in common: each "inserts symbol-name \<rightarrow> address entries into
  the supplied symbol-table collaborator" through \<open>insert(name, address)\<close>, one entry for
  each symbol of the image that the loader is for, in the order of the image.
\<close>

definition insert_symbols ::
  "('a::len word Symbol \<Rightarrow> bool) \<Rightarrow> 'a word Symbol list \<Rightarrow> 'a word SymbolTable
     \<Rightarrow> 'a word \<Rightarrow> 'a word \<Rightarrow> 'a word \<Rightarrow> 'a word SymbolTable" where
  "insert_symbols wanted syms symtab sym_base sym_offset sym_mask =
     symtab @ map (\<lambda>symbol. (sym_name symbol, symbol_addr sym_base sym_offset sym_mask symbol))
                (filter wanted syms)"

text \<open>
  Modelled from the spec: \<open>loadAllSymbols\<close>, pure virtual in the header, for an image
  with the symbols \<open>syms\<close>: every symbol is inserted. The methods are not \<open>const\<close>, so
  the model returns the object and the table as they are after the call; the
  specification gives them no effect on the Object File ("mutated only to set load
  offset/mask before mapping") and no rule for the boolean result, which is left out.
\<close>

definition loadAllSymbols ::
  "'a::len word Symbol list \<Rightarrow> 'a word SymbolTable \<Rightarrow> 'a word \<Rightarrow> 'a word \<Rightarrow> 'a word
     \<Rightarrow> 'a word ObjectFile \<Rightarrow> 'a word ObjectFile \<times> 'a word SymbolTable" where
  "loadAllSymbols syms symtab sym_base sym_offset sym_mask obj =
     (obj, insert_symbols (\<lambda>symbol. True) syms symtab sym_base sym_offset sym_mask)"

text \<open>
  Modelled from the spec: \<open>loadGlobalSymbols\<close>, pure virtual in the header: as
  \<open>loadAllSymbols\<close>, for the global symbols.
\<close>

definition loadGlobalSymbols ::
  "'a::len word Symbol list \<Rightarrow> 'a word SymbolTable \<Rightarrow> 'a word \<Rightarrow> 'a word \<Rightarrow> 'a word
     \<Rightarrow> 'a word ObjectFile \<Rightarrow> 'a word ObjectFile \<times> 'a word SymbolTable" where
  "loadGlobalSymbols syms symtab sym_base sym_offset sym_mask obj =
     (obj, insert_symbols (\<lambda>symbol. sym_binding symbol = SymGlobal) syms symtab
             sym_base sym_offset sym_mask)"

text \<open>
  Modelled from the spec: \<open>loadLocalSymbols\<close>, pure virtual in the header: as
  \<open>loadAllSymbols\<close>, for the local symbols.
\<close>

definition loadLocalSymbols ::
  "'a::len word Symbol list \<Rightarrow> 'a word SymbolTable \<Rightarrow> 'a word \<Rightarrow> 'a word \<Rightarrow> 'a word
     \<Rightarrow> 'a word ObjectFile \<Rightarrow> 'a word ObjectFile \<times> 'a word SymbolTable" where
  "loadLocalSymbols syms symtab sym_base sym_offset sym_mask obj =
     (obj, insert_symbols (\<lambda>symbol. sym_binding symbol = SymLocal) syms symtab
             sym_base sym_offset sym_mask)"

section \<open>The public operations as calls on an object\<close>

text \<open>
  One constructor per public member function of the class, with its arguments: those
  with a body in the header, and \<open>loadSegments\<close>, the three pure virtual symbol loaders
  (with the symbols of the image) and the static \<open>tryLoaders\<close> (with the registry) as
  modelled above. \<open>AddSegment\<close> is protected and listed for the parsers that derive from
  the class. Whatever a loader or a parser calls on the object is a call of this list.
\<close>

datatype ('addr, 'm, 'pa, 'p) call =
    LoadSegments "('addr, 'm) sink_write" 'm
  | LoadAllSymbols "'addr Symbol list" "'addr SymbolTable" 'addr 'addr 'addr
  | LoadGlobalSymbols "'addr Symbol list" "'addr SymbolTable" 'addr 'addr 'addr
  | LoadLocalSymbols "'addr Symbol list" "'addr SymbolTable" 'addr 'addr 'addr
  | LoadWeakSymbols "'addr SymbolTable" 'addr 'addr 'addr
  | TryLoaders "('pa, 'addr ObjectFile, 'p) Loader list" 'pa
  | GetInterpreter
  | Relocatable
  | MapSize
  | UpdateBias 'addr
  | Bias
  | HasTLS
  | GetArch
  | GetOpSys
  | EntryPoint
  | MaxSegmentAddr
  | MinSegmentAddr
  | Contains 'addr
  | SetLoadOffset 'addr
  | SetLoadMask 'addr
  | AddSegment string 'addr "byte list" 'addr

text \<open>
  The object after a call; \<open>Inl\<close> when the call ends the program. The members declared
  \<open>const\<close> cannot change the object; \<open>loadSegments\<close> and \<open>tryLoaders\<close> as modelled give
  their result and leave the object to the caller as it was.
\<close>

fun do_call ::
  "('a::len word, 'm, 'pa, 'p) call \<Rightarrow> 'a word ObjectFile \<Rightarrow> error + 'a word ObjectFile" where
  "do_call (LoadSegments wr m) obj =
     (case loadSegments wr obj m of Inl e \<Rightarrow> Inl e | Inr r \<Rightarrow> Inr obj)"
| "do_call (LoadAllSymbols syms symtab sym_base sym_offset sym_mask) obj =
     Inr (fst (loadAllSymbols syms symtab sym_base sym_offset sym_mask obj))"
| "do_call (LoadGlobalSymbols syms symtab sym_base sym_offset sym_mask) obj =
     Inr (fst (loadGlobalSymbols syms symtab sym_base sym_offset sym_mask obj))"
| "do_call (LoadLocalSymbols syms symtab sym_base sym_offset sym_mask) obj =
     Inr (fst (loadLocalSymbols syms symtab sym_base sym_offset sym_mask obj))"
| "do_call (TryLoaders registry params) obj =
     (case tryLoaders registry params obj of (result, invoked) \<Rightarrow> Inr obj)"
| "do_call (LoadWeakSymbols symtab sym_base sym_offset sym_mask) obj =
     Inr (fst (snd (loadWeakSymbols symtab sym_base sym_offset sym_mask obj)))"
| "do_call MapSize obj = (case mapSize obj of Inl e \<Rightarrow> Inl e | Inr r \<Rightarrow> Inr obj)"
| "do_call (UpdateBias bias_addr) obj = updateBias bias_addr obj"
| "do_call (SetLoadOffset val) obj = Inr (setLoadOffset val obj)"
| "do_call (SetLoadMask val) obj = Inr (setLoadMask val obj)"
| "do_call (AddSegment nm b d sz) obj = Inr (addSegment nm b d sz obj)"
| "do_call c obj = Inr obj"

fun do_calls ::
  "('a::len word, 'm, 'pa, 'p) call list \<Rightarrow> 'a word ObjectFile \<Rightarrow> error + 'a word ObjectFile"
  where
  "do_calls [] obj = Inr obj"
| "do_calls (c # cs) obj =
     (case do_call c obj of Inl e \<Rightarrow> Inl e | Inr obj' \<Rightarrow> do_calls cs obj')"

section \<open>Address-range queries\<close>

lemma minSegmentAddr_loop_le_acc: "minSegmentAddr_loop segs m \<le> m"
proof (induction segs arbitrary: m)
  case Nil
  show ?case by simp
next
  case (Cons seg segs)
  have "minSegmentAddr_loop segs (if base seg < m then base seg else m)
          \<le> (if base seg < m then base seg else m)"
    by (rule Cons.IH)
  also have "\<dots> \<le> m" by (simp add: less_imp_le)
  finally show ?case by simp
qed

lemma minSegmentAddr_loop_le_base:
  "seg \<in> set segs \<Longrightarrow> minSegmentAddr_loop segs m \<le> base seg"
proof (induction segs arbitrary: m)
  case Nil
  then show ?case by simp
next
  case (Cons s segs)
  show ?case
  proof (cases "seg = s")
    case True
    have "minSegmentAddr_loop segs (if base s < m then base s else m)
            \<le> (if base s < m then base s else m)"
      by (rule minSegmentAddr_loop_le_acc)
    also have "\<dots> \<le> base s" by (simp add: not_less)
    finally show ?thesis using True by simp
  next
    case False
    with Cons.prems have "seg \<in> set segs" by simp
    then show ?thesis using Cons.IH by simp
  qed
qed

lemma maxSegmentAddr_loop_ge_acc: "m \<le> maxSegmentAddr_loop segs m"
proof (induction segs arbitrary: m)
  case Nil
  show ?case by simp
next
  case (Cons seg segs)
  let ?e = "base seg + size_seg seg"
  have "m \<le> (if ?e > m then ?e else m)" by (simp add: less_imp_le)
  also have "\<dots> \<le> maxSegmentAddr_loop segs (if ?e > m then ?e else m)"
    by (rule Cons.IH)
  finally show ?case by (simp add: Let_def)
qed

lemma maxSegmentAddr_loop_ge_end:
  "seg \<in> set segs \<Longrightarrow> base seg + size_seg seg \<le> maxSegmentAddr_loop segs m"
proof (induction segs arbitrary: m)
  case Nil
  then show ?case by simp
next
  case (Cons s segs)
  let ?e = "base s + size_seg s"
  show ?case
  proof (cases "seg = s")
    case True
    have "?e \<le> (if ?e > m then ?e else m)" by (simp add: not_less)
    also have "\<dots> \<le> maxSegmentAddr_loop segs (if ?e > m then ?e else m)"
      by (rule maxSegmentAddr_loop_ge_acc)
    finally show ?thesis using True by (simp add: Let_def)
  next
    case False
    with Cons.prems have "seg \<in> set segs" by simp
    then show ?thesis using Cons.IH by (simp add: Let_def)
  qed
qed

lemma contains_loop_iff:
  "contains_loop segs addr \<longleftrightarrow>
     (\<exists>seg \<in> set segs. base seg \<le> addr \<and> addr < base seg + size_seg seg)"
  by (induction segs) (auto simp: Let_def)

lemma unat_end_wraps:
  "unat (b + sz) = (unat b + unat sz) mod 2 ^ LENGTH('a)" for b sz :: "'a::len word"
  by (simp add: unat_word_ariths)

lemma end_no_overflow:
  "unat b + unat sz < 2 ^ LENGTH('a) \<Longrightarrow> unat (b + sz) = unat b + unat sz"
  for b sz :: "'a::len word"
  by (simp add: unat_word_ariths)

lemma end_overflow_less:
  "2 ^ LENGTH('a) \<le> unat b + unat sz \<Longrightarrow> b + sz < b" for b sz :: "'a::len word"
proof -
  assume ov: "2 ^ LENGTH('a) \<le> unat b + unat sz"
  have sz: "unat sz < 2 ^ LENGTH('a)" by (rule unsigned_less)
  have b: "unat b < 2 ^ LENGTH('a)" by (rule unsigned_less)
  have lt: "unat b + unat sz - 2 ^ LENGTH('a) < 2 ^ LENGTH('a)" using sz b by arith
  have "unat (b + sz) = (unat b + unat sz) mod 2 ^ LENGTH('a)"
    by (rule unat_end_wraps)
  also have "\<dots> = (unat b + unat sz - 2 ^ LENGTH('a)) mod 2 ^ LENGTH('a)"
    using ov by (rule le_mod_geq)
  also have "\<dots> = unat b + unat sz - 2 ^ LENGTH('a)"
    using lt by (rule mod_less)
  also have "\<dots> < unat b" using ov sz by arith
  finally show ?thesis by (simp only: word_less_nat_alt)
qed

lemma in_segment_spec_iff:
  "unat (base seg) + unat (size_seg seg) < 2 ^ LENGTH('a) \<Longrightarrow>
   in_segment_spec seg addr \<longleftrightarrow> base seg \<le> addr \<and> addr < base seg + size_seg seg"
  for seg :: "'a::len word Segment"
  by (simp add: in_segment_spec_def word_le_nat_alt word_less_nat_alt end_no_overflow)

lemma maxAddr_unat: "unat (maxAddr :: 'a::len word) = 2 ^ LENGTH('a) - 1"
  by (simp add: maxAddr_def unsigned_minus_1_eq_mask mask_eq_exp_minus_1)

lemma maxAddr_gt_0: "(0 :: 'a::len word) < maxAddr"
  by (simp add: maxAddr_def word_gt_0)

subsection \<open>No segments\<close>

text \<open>
  Claim C9. For an Object File whose segment collection is empty, \<open>minSegmentAddr()\<close>
  returns the maximum representable address (all bits set, \<open>2 ^ w - 1\<close>),
  \<open>maxSegmentAddr()\<close> returns 0, so the minimum is above the maximum, and
  \<open>contains(addr)\<close> is false for every address.
\<close>

theorem empty_segments_queries:
  fixes obj :: "'a::len word ObjectFile"
  assumes "segments obj = []"
  shows "minSegmentAddr obj = maxAddr
       \<and> unat (minSegmentAddr obj) = 2 ^ LENGTH('a) - 1
       \<and> maxSegmentAddr obj = 0
       \<and> maxSegmentAddr obj < minSegmentAddr obj
       \<and> (\<forall>addr. \<not> contains obj addr)"
  using assms
  by (simp add: minSegmentAddr_def maxSegmentAddr_def contains_def maxAddr_unat maxAddr_gt_0)

text \<open>The freshly constructed 64-bit object has no segments.\<close>

theorem empty_segments_queries_witness:
  "segments (ObjectFile_new ''blob'' 0 [] UnknownArch UnknownOpSys :: 64 word ObjectFile) = []
   \<and> minSegmentAddr (ObjectFile_new ''blob'' 0 [] UnknownArch UnknownOpSys :: 64 word ObjectFile)
       = 0xFFFFFFFFFFFFFFFF
   \<and> maxSegmentAddr (ObjectFile_new ''blob'' 0 [] UnknownArch UnknownOpSys :: 64 word ObjectFile) = 0
   \<and> \<not> contains (ObjectFile_new ''blob'' 0 [] UnknownArch UnknownOpSys :: 64 word ObjectFile) 4096"
  using empty_segments_queries
    [of "ObjectFile_new ''blob'' 0 [] UnknownArch UnknownOpSys :: 64 word ObjectFile"]
  by (simp add: ObjectFile_new_def maxAddr_def)

subsection \<open>Membership\<close>

text \<open>
  Claim C4, as amended. \<open>contains(addr)\<close> is true if and only if some segment has
  \<open>base \<le> addr < (base + size) mod 2 ^ w\<close>: the end of the interval is the sum in the
  address type, with no load offset or mask applied. For an Object File in which no
  segment's \<open>base + size\<close> exceeds the maximum address, this is membership in the
  half-open interval \<open>[base, base + size)\<close> of some segment.
\<close>

theorem contains_iff_wrapped_interval:
  fixes obj :: "'a::len word ObjectFile"
  shows "(contains obj addr \<longleftrightarrow>
            (\<exists>seg \<in> set (segments obj).
               unat (base seg) \<le> unat addr
               \<and> unat addr < (unat (base seg) + unat (size_seg seg)) mod 2 ^ LENGTH('a)))
       \<and> ((\<forall>seg \<in> set (segments obj). \<not> end_overflows seg) \<longrightarrow>
            contains obj addr = contains_spec obj addr)"
proof
  show "contains obj addr \<longleftrightarrow>
            (\<exists>seg \<in> set (segments obj).
               unat (base seg) \<le> unat addr
               \<and> unat addr < (unat (base seg) + unat (size_seg seg)) mod 2 ^ LENGTH('a))"
    by (simp add: contains_def contains_loop_iff word_le_nat_alt word_less_nat_alt
        unat_end_wraps)
next
  show "(\<forall>seg \<in> set (segments obj). \<not> end_overflows seg) \<longrightarrow>
            contains obj addr = contains_spec obj addr"
  proof
    assume no: "\<forall>seg \<in> set (segments obj). \<not> end_overflows seg"
    have "\<And>seg. seg \<in> set (segments obj) \<Longrightarrow>
            in_segment_spec seg addr \<longleftrightarrow> base seg \<le> addr \<and> addr < base seg + size_seg seg"
      using no by (intro in_segment_spec_iff) (simp add: end_overflows_def not_le)
    then show "contains obj addr = contains_spec obj addr"
      by (auto simp add: contains_def contains_spec_def contains_loop_iff list_ex_iff)
  qed
qed

text \<open>
  Claim C4 as stated fails where a segment's end wraps: the first byte of a two-byte
  segment at the top address is inside \<open>[base, base + size)\<close>, and \<open>contains\<close> is false
  there, since the end it compares with is \<open>1\<close>.
\<close>

theorem contains_interval_counterexample:
  "\<not> contains (addSegment ''text'' 0xFFFFFFFFFFFFFFFF [0x90, 0x90] 2
        (ObjectFile_new ''a.out'' 2 [0x90, 0x90] UnknownArch UnknownOpSys
           :: 64 word ObjectFile)) 0xFFFFFFFFFFFFFFFF
   \<and> contains_spec (addSegment ''text'' 0xFFFFFFFFFFFFFFFF [0x90, 0x90] 2
        (ObjectFile_new ''a.out'' 2 [0x90, 0x90] UnknownArch UnknownOpSys
           :: 64 word ObjectFile)) 0xFFFFFFFFFFFFFFFF"
  by (simp add: contains_def contains_spec_def in_segment_spec_def addSegment_def
      ObjectFile_new_def)

text \<open>A two-byte segment at \<open>0x1000\<close> and its second byte.\<close>

theorem contains_iff_wrapped_interval_witness:
  "segments (addSegment ''text'' 0x1000 [0x90, 0x90] 2
        (ObjectFile_new ''a.out'' 2 [0x90, 0x90] UnknownArch UnknownOpSys
           :: 64 word ObjectFile))
     = [\<lparr>name = ''text'', base = 0x1000, data = [0x90, 0x90], size_seg = 2\<rparr>]
   \<and> \<not> end_overflows \<lparr>name = ''text'', base = 0x1000 :: 64 word, data = [0x90, 0x90],
                        size_seg = 2\<rparr>
   \<and> contains (addSegment ''text'' 0x1000 [0x90, 0x90] 2
        (ObjectFile_new ''a.out'' 2 [0x90, 0x90] UnknownArch UnknownOpSys
           :: 64 word ObjectFile)) 0x1001
   \<and> contains_spec (addSegment ''text'' 0x1000 [0x90, 0x90] 2
        (ObjectFile_new ''a.out'' 2 [0x90, 0x90] UnknownArch UnknownOpSys
           :: 64 word ObjectFile)) 0x1001"
  using contains_iff_wrapped_interval
    [of "addSegment ''text'' 0x1000 [0x90, 0x90] 2
        (ObjectFile_new ''a.out'' 2 [0x90, 0x90] UnknownArch UnknownOpSys
           :: 64 word ObjectFile)" "0x1001"]
  by (simp add: addSegment_def ObjectFile_new_def end_overflows_def contains_def)

subsection \<open>Bounds\<close>

text \<open>
  Claim C5, as amended. For every Object File and every one of its segments,
  \<open>minSegmentAddr() \<le> segment.base\<close> and \<open>(segment.base + segment.size) mod 2 ^ w \<le>
  maxSegmentAddr()\<close>, with no load offset or mask applied; for a segment whose
  \<open>base + size\<close> does not exceed the maximum address, this is
  \<open>segment.base + segment.size \<le> maxSegmentAddr()\<close>, and the two queries bound the
  segment.
\<close>

theorem segment_bounds:
  fixes obj :: "'a::len word ObjectFile"
  assumes "seg \<in> set (segments obj)"
  shows "minSegmentAddr obj \<le> base seg
       \<and> base seg + size_seg seg \<le> maxSegmentAddr obj
       \<and> unat (base seg + size_seg seg) = (unat (base seg) + unat (size_seg seg)) mod 2 ^ LENGTH('a)
       \<and> (\<not> end_overflows seg \<longrightarrow>
            unat (minSegmentAddr obj) \<le> unat (base seg)
            \<and> unat (base seg) + unat (size_seg seg) \<le> unat (maxSegmentAddr obj))"
proof -
  have lo: "minSegmentAddr obj \<le> base seg"
    using assms by (simp add: minSegmentAddr_def minSegmentAddr_loop_le_base)
  have hi: "base seg + size_seg seg \<le> maxSegmentAddr obj"
    using assms by (simp add: maxSegmentAddr_def maxSegmentAddr_loop_ge_end)
  have nat_bounds: "unat (minSegmentAddr obj) \<le> unat (base seg)
       \<and> unat (base seg) + unat (size_seg seg) \<le> unat (maxSegmentAddr obj)"
    if "\<not> end_overflows seg"
  proof -
    from that have "unat (base seg) + unat (size_seg seg) < 2 ^ LENGTH('a)"
      by (simp add: end_overflows_def not_le)
    then have "unat (base seg + size_seg seg) = unat (base seg) + unat (size_seg seg)"
      by (rule end_no_overflow)
    with lo hi show ?thesis by (simp add: word_le_nat_alt)
  qed
  from lo hi nat_bounds show ?thesis by (simp add: unat_end_wraps)
qed

text \<open>A two-byte segment at \<open>0x1000\<close>.\<close>

theorem segment_bounds_witness:
  "\<lparr>name = ''text'', base = 0x1000, data = [0x90, 0x90], size_seg = 2\<rparr>
     \<in> set (segments (addSegment ''text'' 0x1000 [0x90, 0x90] 2
        (ObjectFile_new ''a.out'' 2 [0x90, 0x90] UnknownArch UnknownOpSys
           :: 64 word ObjectFile)))
   \<and> \<not> end_overflows \<lparr>name = ''text'', base = 0x1000 :: 64 word, data = [0x90, 0x90], size_seg = 2\<rparr>
   \<and> unat (minSegmentAddr (addSegment ''text'' 0x1000 [0x90, 0x90] 2
        (ObjectFile_new ''a.out'' 2 [0x90, 0x90] UnknownArch UnknownOpSys
           :: 64 word ObjectFile))) \<le> 0x1000
   \<and> 0x1002 \<le> unat (maxSegmentAddr (addSegment ''text'' 0x1000 [0x90, 0x90] 2
        (ObjectFile_new ''a.out'' 2 [0x90, 0x90] UnknownArch UnknownOpSys
           :: 64 word ObjectFile)))"
  using segment_bounds
    [of "\<lparr>name = ''text'', base = 0x1000, data = [0x90, 0x90], size_seg = 2\<rparr>"
        "addSegment ''text'' 0x1000 [0x90, 0x90] 2
        (ObjectFile_new ''a.out'' 2 [0x90, 0x90] UnknownArch UnknownOpSys
           :: 64 word ObjectFile)"]
  by (simp add: addSegment_def ObjectFile_new_def end_overflows_def)

text \<open>
  Claim C5 as stated fails where a segment's end wraps: for the two-byte segment at the
  top address \<open>maxSegmentAddr()\<close> is \<open>1\<close>, below the segment's base and below its end.
\<close>

theorem segment_bounds_counterexample:
  "\<lparr>name = ''text'', base = 0xFFFFFFFFFFFFFFFF, data = [0x90, 0x90], size_seg = 2\<rparr>
     \<in> set (segments (addSegment ''text'' 0xFFFFFFFFFFFFFFFF [0x90, 0x90] 2
        (ObjectFile_new ''a.out'' 2 [0x90, 0x90] UnknownArch UnknownOpSys
           :: 64 word ObjectFile)))
   \<and> maxSegmentAddr (addSegment ''text'' 0xFFFFFFFFFFFFFFFF [0x90, 0x90] 2
        (ObjectFile_new ''a.out'' 2 [0x90, 0x90] UnknownArch UnknownOpSys
           :: 64 word ObjectFile)) = 1
   \<and> \<not> (unat (base \<lparr>name = ''text'', base = 0xFFFFFFFFFFFFFFFF :: 64 word,
                       data = [0x90, 0x90], size_seg = 2\<rparr>)
          + unat (size_seg \<lparr>name = ''text'', base = 0xFFFFFFFFFFFFFFFF :: 64 word,
                       data = [0x90, 0x90], size_seg = 2\<rparr>)
        \<le> unat (maxSegmentAddr (addSegment ''text'' 0xFFFFFFFFFFFFFFFF [0x90, 0x90] 2
        (ObjectFile_new ''a.out'' 2 [0x90, 0x90] UnknownArch UnknownOpSys
           :: 64 word ObjectFile))))"
  by (simp add: maxSegmentAddr_def addSegment_def ObjectFile_new_def)

subsection \<open>Segments whose end wraps\<close>

lemma contains_loop_append:
  "contains_loop (xs @ ys) addr \<longleftrightarrow> contains_loop xs addr \<or> contains_loop ys addr"
  by (induction xs) (simp_all add: Let_def)

lemma overflowing_segment_never_matches:
  "end_overflows seg \<Longrightarrow> \<not> (base seg \<le> addr \<and> addr < base seg + size_seg seg)"
  for seg :: "'a::len word Segment"
proof -
  assume "end_overflows seg"
  then have "base seg + size_seg seg < base seg"
    unfolding end_overflows_def by (rule end_overflow_less)
  then show ?thesis by auto
qed

text \<open>
  Claim C10, as amended. \<open>maxSegmentAddr()\<close> and \<open>contains(addr)\<close> compute a segment's
  end as \<open>base + size\<close> wrapping modulo \<open>2 ^ w\<close>. Consequently, for any segment whose
  true \<open>base + size\<close> exceeds the maximum address, the wrapped end is
  \<open>base + size - 2 ^ w\<close>, smaller than \<open>base\<close>; it is what \<open>maxSegmentAddr()\<close> sees of
  the segment; the segment's test fails for every address, so \<open>contains(addr)\<close>
  returns what it returns for the other segments alone, and false for every address
  when the segment is the only one.
\<close>

theorem overflowing_segment_is_skipped:
  fixes obj :: "'a::len word ObjectFile" and seg :: "'a word Segment"
  assumes seg: "segments obj = pre @ seg # post"
    and ov: "end_overflows seg"
  shows "unat (base seg + size_seg seg) = unat (base seg) + unat (size_seg seg) - 2 ^ LENGTH('a)
       \<and> base seg + size_seg seg < base seg
       \<and> base seg + size_seg seg \<le> maxSegmentAddr obj
       \<and> contains obj addr = contains (obj\<lparr>segments := pre @ post\<rparr>) addr
       \<and> (pre = [] \<and> post = [] \<longrightarrow>
            \<not> contains obj addr \<and> maxSegmentAddr obj = base seg + size_seg seg)"
proof -
  have wrap: "base seg + size_seg seg < base seg"
    using ov unfolding end_overflows_def by (rule end_overflow_less)
  have "unat (base seg) < 2 ^ LENGTH('a)" "unat (size_seg seg) < 2 ^ LENGTH('a)"
    by (rule unsigned_less)+
  then have "unat (base seg) + unat (size_seg seg) - 2 ^ LENGTH('a) < 2 ^ LENGTH('a)"
    by arith
  then have "(unat (base seg) + unat (size_seg seg) - 2 ^ LENGTH('a)) mod 2 ^ LENGTH('a)
         = unat (base seg) + unat (size_seg seg) - 2 ^ LENGTH('a)"
    by (rule mod_less)
  moreover have "(unat (base seg) + unat (size_seg seg)) mod 2 ^ LENGTH('a)
         = (unat (base seg) + unat (size_seg seg) - 2 ^ LENGTH('a)) mod 2 ^ LENGTH('a)"
    using ov unfolding end_overflows_def by (rule le_mod_geq)
  ultimately have val: "unat (base seg + size_seg seg)
         = unat (base seg) + unat (size_seg seg) - 2 ^ LENGTH('a)"
    by (simp add: unat_end_wraps)
  have "seg \<in> set (segments obj)" using seg by simp
  then have mx: "base seg + size_seg seg \<le> maxSegmentAddr obj"
    by (simp add: maxSegmentAddr_def maxSegmentAddr_loop_ge_end)
  have skip: "contains_loop [seg] addr = False"
    using overflowing_segment_never_matches [OF ov, of addr] by (simp add: Let_def)
  have "contains_loop (pre @ [seg] @ post) addr = contains_loop (pre @ post) addr"
    unfolding contains_loop_append skip by simp
  then have same: "contains obj addr = contains (obj\<lparr>segments := pre @ post\<rparr>) addr"
    using seg by (simp add: contains_def)
  have alone: "\<not> contains obj addr \<and> maxSegmentAddr obj = base seg + size_seg seg"
    if "pre = [] \<and> post = []"
  proof -
    have "maxSegmentAddr_loop [seg] 0 = base seg + size_seg seg"
      by (simp add: Let_def word_gt_0)
    then show ?thesis
      using same seg that by (simp add: contains_def maxSegmentAddr_def)
  qed
  from val wrap mx same alone show ?thesis by simp
qed

text \<open>The two-byte segment at the top address, alone in its Object File.\<close>

theorem overflowing_segment_is_skipped_witness:
  "segments (addSegment ''text'' 0xFFFFFFFFFFFFFFFF [0x90, 0x90] 2
        (ObjectFile_new ''a.out'' 2 [0x90, 0x90] UnknownArch UnknownOpSys
           :: 64 word ObjectFile))
     = [] @ \<lparr>name = ''text'', base = 0xFFFFFFFFFFFFFFFF, data = [0x90, 0x90], size_seg = 2\<rparr> # []
   \<and> end_overflows \<lparr>name = ''text'', base = 0xFFFFFFFFFFFFFFFF :: 64 word,
                     data = [0x90, 0x90], size_seg = 2\<rparr>
   \<and> (0xFFFFFFFFFFFFFFFF :: 64 word) + 2 < 0xFFFFFFFFFFFFFFFF
   \<and> \<not> contains (addSegment ''text'' 0xFFFFFFFFFFFFFFFF [0x90, 0x90] 2
        (ObjectFile_new ''a.out'' 2 [0x90, 0x90] UnknownArch UnknownOpSys
           :: 64 word ObjectFile)) 0xFFFFFFFFFFFFFFFF"
  using overflowing_segment_is_skipped
    [of "addSegment ''text'' 0xFFFFFFFFFFFFFFFF [0x90, 0x90] 2
        (ObjectFile_new ''a.out'' 2 [0x90, 0x90] UnknownArch UnknownOpSys
           :: 64 word ObjectFile)"
        "[]"
        "\<lparr>name = ''text'', base = 0xFFFFFFFFFFFFFFFF, data = [0x90, 0x90], size_seg = 2\<rparr>"
        "[]" "0xFFFFFFFFFFFFFFFF"]
  by (simp add: addSegment_def ObjectFile_new_def end_overflows_def contains_def)

text \<open>
  Claim C10 as stated fails when another segment covers the address: the three-byte
  segment \<open>bss\<close> at \<open>2 ^ 64 - 2\<close> wraps, its first address is inside it, and \<open>contains\<close>
  is true there because of the one-byte segment \<open>text\<close> at the same base.
\<close>

theorem overflowing_segment_counterexample:
  "end_overflows \<lparr>name = ''bss'', base = 0xFFFFFFFFFFFFFFFE :: 64 word, data = [0, 0, 0],
                   size_seg = 3\<rparr>
   \<and> base \<lparr>name = ''bss'', base = 0xFFFFFFFFFFFFFFFE :: 64 word, data = [0, 0, 0],
                   size_seg = 3\<rparr> \<le> 0xFFFFFFFFFFFFFFFE
   \<and> in_segment_spec \<lparr>name = ''bss'', base = 0xFFFFFFFFFFFFFFFE :: 64 word, data = [0, 0, 0],
                   size_seg = 3\<rparr> 0xFFFFFFFFFFFFFFFE
   \<and> contains (addSegment ''text'' 0xFFFFFFFFFFFFFFFE [0x90] 1
         (addSegment ''bss'' 0xFFFFFFFFFFFFFFFE [0, 0, 0] 3
           (ObjectFile_new ''a.out'' 3 [0, 0, 0] UnknownArch UnknownOpSys
              :: 64 word ObjectFile))) 0xFFFFFFFFFFFFFFFE"
  by (simp add: contains_def addSegment_def ObjectFile_new_def end_overflows_def
      in_segment_spec_def)

section \<open>Relocatable-only operations\<close>

text \<open>
  Claim C3. The base class is not relocatable (\<open>relocatable()\<close> is false), and calling
  \<open>mapSize()\<close> or \<open>updateBias()\<close> on it is a panic: the call gives no result and no
  object to go on with, and a sequence of calls that starts with one of them ends
  there, whatever follows.
\<close>

theorem relocatable_only_operations_panic:
  "\<not> relocatable obj
   \<and> mapSize obj
       = Inl (Panic (''mapSize() should only be called on relocatable objects'' @ [CHR 0x0A]))
   \<and> updateBias bias_addr obj
       = Inl (Panic (''updateBias() should only be called on relocatable objects'' @ [CHR 0x0A]))
   \<and> (\<forall>sz. mapSize obj \<noteq> Inr sz)
   \<and> (\<forall>obj'. updateBias bias_addr obj \<noteq> Inr obj')
   \<and> (\<exists>e. do_calls (MapSize # cs) obj = Inl e)
   \<and> (\<exists>e. do_calls (UpdateBias bias_addr # cs) obj = Inl e)"
  by (simp add: relocatable_def mapSize_def updateBias_def)

section \<open>Weak symbols\<close>

text \<open>
  Claim C7. For an Object File that does not override it, \<open>loadWeakSymbols\<close> returns
  failure and has no side effects: the symbol table is as it was, nothing inserted, and
  so is the Object File.
\<close>

theorem loadWeakSymbols_not_supported:
  "fst (loadWeakSymbols symtab sym_base sym_offset sym_mask obj) = False
   \<and> fst (snd (loadWeakSymbols symtab sym_base sym_offset sym_mask obj)) = obj
   \<and> snd (snd (loadWeakSymbols symtab sym_base sym_offset sym_mask obj)) = symtab"
  by (simp add: loadWeakSymbols_def)

section \<open>Architecture and OS tags\<close>

lemma do_call_tags:
  "do_call c obj = Inr obj' \<Longrightarrow> arch obj' = arch obj \<and> opSys obj' = opSys obj"
  by (cases c)
    (auto simp: loadSegments_def loadAllSymbols_def loadGlobalSymbols_def
      loadLocalSymbols_def loadWeakSymbols_def mapSize_def updateBias_def
      setLoadOffset_def setLoadMask_def addSegment_def split: prod.splits)

lemma do_calls_tags:
  "do_calls cs obj = Inr obj' \<Longrightarrow> arch obj' = arch obj \<and> opSys obj' = opSys obj"
proof (induction cs arbitrary: obj)
  case Nil
  then show ?case by simp
next
  case (Cons c cs)
  from Cons.prems obtain obj1 where
    c: "do_call c obj = Inr obj1" and cs: "do_calls cs obj1 = Inr obj'"
    by (auto split: sum.splits)
  from Cons.IH [OF cs] do_call_tags [OF c] show ?case by simp
qed

text \<open>
  Claim C8. The architecture and OS tags are fixed at construction: \<open>getArch()\<close> and
  \<open>getOpSys()\<close> return the values given to the constructor, on the new object and after
  any sequence of calls of the public operations of the class (the four symbol loaders,
  \<open>loadSegments\<close> and \<open>tryLoaders\<close> among them) and of \<open>addSegment\<close> that returns.
\<close>

theorem tags_fixed_at_construction:
  fixes cs :: "('a::len word, 'm, 'pa, 'p) call list"
  assumes "do_calls cs (ObjectFile_new fname l d a os) = Inr obj'"
  shows "getArch (ObjectFile_new fname l d a os :: 'a word ObjectFile) = a
       \<and> getOpSys (ObjectFile_new fname l d a os :: 'a word ObjectFile) = os
       \<and> getArch obj' = a \<and> getOpSys obj' = os"
  using do_calls_tags [OF assms]
  by (simp add: getArch_def getOpSys_def ObjectFile_new_def)

text \<open>Eleven calls on an Arm64 Linux image.\<close>

theorem tags_fixed_at_construction_witness:
  "do_calls
     [SetLoadOffset 0x1000, AddSegment ''text'' 0 [0x90] 1, LoadSegments (\<lambda>a bs m. Some m) (),
      LoadAllSymbols [\<lparr>sym_name = ''main'', sym_value = 0, sym_binding = SymGlobal\<rparr>] [] 0 0
        0xFFFFFFFFFFFFFFFF,
      LoadGlobalSymbols [\<lparr>sym_name = ''main'', sym_value = 0, sym_binding = SymGlobal\<rparr>] [] 0 0
        0xFFFFFFFFFFFFFFFF,
      LoadLocalSymbols [\<lparr>sym_name = ''main'', sym_value = 0, sym_binding = SymGlobal\<rparr>] [] 0 0
        0xFFFFFFFFFFFFFFFF,
      LoadWeakSymbols [] 0 0 0xFFFFFFFFFFFFFFFF,
      TryLoaders [\<lambda>pa ob. if getArch ob = Arm64 then Accepted ''P1'' else Declined] (),
      SetLoadMask 0xFFF, Contains 0, GetArch]
     (ObjectFile_new ''a.out'' 1 [0x90] Arm64 Linux :: 64 word ObjectFile)
   = Inr \<lparr>filename = ''a.out'', fileData = [0x90], len = 1, loadOffset = 0x1000 :: 64 word,
          loadMask = 0xFFF, arch = Arm64, opSys = Linux, entry = 0,
          segments = [\<lparr>name = ''text'', base = 0, data = [0x90], size_seg = 1\<rparr>]\<rparr>
   \<and> getArch \<lparr>filename = ''a.out'', fileData = [0x90], len = 1, loadOffset = 0x1000 :: 64 word,
          loadMask = 0xFFF, arch = Arm64, opSys = Linux, entry = 0,
          segments = [\<lparr>name = ''text'', base = 0, data = [0x90], size_seg = 1\<rparr>]\<rparr> = Arm64
   \<and> getOpSys \<lparr>filename = ''a.out'', fileData = [0x90], len = 1, loadOffset = 0x1000 :: 64 word,
          loadMask = 0xFFF, arch = Arm64, opSys = Linux, entry = 0,
          segments = [\<lparr>name = ''text'', base = 0, data = [0x90], size_seg = 1\<rparr>]\<rparr> = Linux"
proof -
  have run: "do_calls
     [SetLoadOffset 0x1000, AddSegment ''text'' 0 [0x90] 1, LoadSegments (\<lambda>a bs m. Some m) (),
      LoadAllSymbols [\<lparr>sym_name = ''main'', sym_value = 0, sym_binding = SymGlobal\<rparr>] [] 0 0
        0xFFFFFFFFFFFFFFFF,
      LoadGlobalSymbols [\<lparr>sym_name = ''main'', sym_value = 0, sym_binding = SymGlobal\<rparr>] [] 0 0
        0xFFFFFFFFFFFFFFFF,
      LoadLocalSymbols [\<lparr>sym_name = ''main'', sym_value = 0, sym_binding = SymGlobal\<rparr>] [] 0 0
        0xFFFFFFFFFFFFFFFF,
      LoadWeakSymbols [] 0 0 0xFFFFFFFFFFFFFFFF,
      TryLoaders [\<lambda>pa ob. if getArch ob = Arm64 then Accepted ''P1'' else Declined] (),
      SetLoadMask 0xFFF, Contains 0, GetArch]
     (ObjectFile_new ''a.out'' 1 [0x90] Arm64 Linux :: 64 word ObjectFile)
   = Inr \<lparr>filename = ''a.out'', fileData = [0x90], len = 1, loadOffset = 0x1000 :: 64 word,
          loadMask = 0xFFF, arch = Arm64, opSys = Linux, entry = 0,
          segments = [\<lparr>name = ''text'', base = 0, data = [0x90], size_seg = 1\<rparr>]\<rparr>"
    by (simp add: ObjectFile_new_def setLoadOffset_def setLoadMask_def addSegment_def
        loadSegments_def loadAllSymbols_def loadGlobalSymbols_def loadLocalSymbols_def
        loadWeakSymbols_def)
  from tags_fixed_at_construction [OF run] run show ?thesis by simp
qed

section \<open>Loading the segments\<close>

lemma loadSegments_loop_accepted:
  "sink_writes wr (segment_writes obj segs) m = Some m' \<Longrightarrow>
   loadSegments_loop wr obj segs m = (True, m')"
proof (induction segs arbitrary: m)
  case Nil
  then show ?case by (simp add: segment_writes_def)
next
  case (Cons seg segs)
  from Cons.prems obtain m1 where
    w: "wr (load_addr obj seg) (segment_bytes seg) m = Some m1"
    and rest: "sink_writes wr (segment_writes obj segs) m1 = Some m'"
    by (auto simp: segment_writes_def split: option.splits)
  from Cons.IH [OF rest] w show ?case by (simp add: loadSegment_def)
qed

lemma loadSegments_loop_rejected:
  "sink_writes wr (segment_writes obj pre) m = Some m1 \<Longrightarrow>
   wr (load_addr obj seg) (segment_bytes seg) m1 = None \<Longrightarrow>
   loadSegments_loop wr obj (pre @ seg # post) m = (False, m1)"
proof (induction pre arbitrary: m)
  case Nil
  then show ?case by (simp add: segment_writes_def loadSegment_def)
next
  case (Cons s pre)
  from Cons.prems(1) obtain m0 where
    w: "wr (load_addr obj s) (segment_bytes s) m = Some m0"
    and rest: "sink_writes wr (segment_writes obj pre) m0 = Some m1"
    by (auto simp: segment_writes_def split: option.splits)
  from Cons.IH [OF rest Cons.prems(2)] w show ?case by (simp add: loadSegment_def)
qed

lemma loadSegments_loop_success:
  "loadSegments_loop wr obj segs m = (True, m') \<Longrightarrow>
   sink_writes wr (segment_writes obj segs) m = Some m'"
proof (induction segs arbitrary: m)
  case Nil
  then show ?case by (simp add: segment_writes_def)
next
  case (Cons seg segs)
  show ?case
  proof (cases "wr (load_addr obj seg) (segment_bytes seg) m")
    case None
    with Cons.prems show ?thesis by (simp add: loadSegment_def)
  next
    case (Some m1)
    with Cons.prems have "loadSegments_loop wr obj segs m1 = (True, m')"
      by (simp add: loadSegment_def)
    from Cons.IH [OF this] Some show ?thesis by (simp add: segment_writes_def)
  qed
qed

text \<open>
  Claim C1. For every Object File and every memory sink, \<open>loadSegments\<close> returns a
  success/failure result and never ends fatally. It succeeds exactly when the sink
  accepts, in the order of the segments, the write of each segment's bytes at
  \<open>(segment.base + loadOffset) & loadMask\<close>, and the sink is then as those writes leave
  it. A segment whose write the sink rejects, after the segments before it were
  written, makes the result a failure.
\<close>

theorem loadSegments_writes_segments:
  fixes obj :: "'a::len word ObjectFile" and wr :: "('a word, 'm) sink_write"
  shows "(\<exists>ok m'. loadSegments wr obj m = Inr (ok, m'))
       \<and> (loadSegments wr obj m = Inr (True, m') \<longleftrightarrow>
            sink_writes wr
              (map (\<lambda>seg. ((base seg + loadOffset obj) AND loadMask obj,
                            take (unat (size_seg seg)) (data seg))) (segments obj)) m = Some m')
       \<and> (segments obj = pre @ seg # post
            \<and> sink_writes wr
              (map (\<lambda>seg. ((base seg + loadOffset obj) AND loadMask obj,
                            take (unat (size_seg seg)) (data seg))) pre) m = Some m1
            \<and> wr ((base seg + loadOffset obj) AND loadMask obj)
                 (take (unat (size_seg seg)) (data seg)) m1 = None
          \<longrightarrow> loadSegments wr obj m = Inr (False, m1))"
proof -
  have sw: "\<And>segs. map (\<lambda>seg. ((base seg + loadOffset obj) AND loadMask obj,
                            take (unat (size_seg seg)) (data seg))) segs
              = segment_writes obj segs"
    by (simp add: segment_writes_def load_addr_def segment_bytes_def)
  have total: "\<exists>ok m'. loadSegments wr obj m = Inr (ok, m')"
    by (simp add: loadSegments_def)
  have ok: "loadSegments wr obj m = Inr (True, m') \<longleftrightarrow>
            sink_writes wr (segment_writes obj (segments obj)) m = Some m'"
    using loadSegments_loop_accepted [of wr obj "segments obj" m m']
      loadSegments_loop_success [of wr obj "segments obj" m m']
    by (auto simp: loadSegments_def)
  have rej: "loadSegments wr obj m = Inr (False, m1)"
    if "segments obj = pre @ seg # post"
      and "sink_writes wr (segment_writes obj pre) m = Some m1"
      and "wr (load_addr obj seg) (segment_bytes seg) m1 = None"
    using loadSegments_loop_rejected [OF that(2) that(3), of post] that(1)
    by (simp add: loadSegments_def)
  from total ok rej show ?thesis
    unfolding sw by (simp add: load_addr_def segment_bytes_def)
qed

text \<open>
  One three-byte segment at \<open>0x1000\<close>, offset \<open>0x100\<close>, mask \<open>0xFFF\<close>: the write goes
  to \<open>0x100\<close>; a sink that ends at \<open>0x102\<close> rejects it.
\<close>

theorem loadSegments_writes_segments_witness:
  "loadSegments (recording_sink 0x10000)
      (setLoadMask 0xFFF (setLoadOffset 0x100 (addSegment ''text'' 0x1000 [0x10, 0x20, 0x30] 3
         (ObjectFile_new ''a.out'' 3 [0x10, 0x20, 0x30] UnknownArch UnknownOpSys
            :: 64 word ObjectFile)))) []
     = Inr (True, [(0x100, [0x10, 0x20, 0x30])])
   \<and> segments (setLoadMask 0xFFF (setLoadOffset 0x100 (addSegment ''text'' 0x1000 [0x10, 0x20, 0x30] 3
         (ObjectFile_new ''a.out'' 3 [0x10, 0x20, 0x30] UnknownArch UnknownOpSys
            :: 64 word ObjectFile))))
       = [] @ \<lparr>name = ''text'', base = 0x1000, data = [0x10, 0x20, 0x30], size_seg = 3\<rparr> # []
   \<and> recording_sink 0x102 ((0x1000 + 0x100) AND (0xFFF :: 64 word)) [0x10, 0x20, 0x30] [] = None
   \<and> loadSegments (recording_sink 0x102)
      (setLoadMask 0xFFF (setLoadOffset 0x100 (addSegment ''text'' 0x1000 [0x10, 0x20, 0x30] 3
         (ObjectFile_new ''a.out'' 3 [0x10, 0x20, 0x30] UnknownArch UnknownOpSys
            :: 64 word ObjectFile)))) []
     = Inr (False, [])"
  using loadSegments_writes_segments
    [of "recording_sink 0x10000"
        "setLoadMask 0xFFF (setLoadOffset 0x100 (addSegment ''text'' 0x1000 [0x10, 0x20, 0x30] 3
         (ObjectFile_new ''a.out'' 3 [0x10, 0x20, 0x30] UnknownArch UnknownOpSys
            :: 64 word ObjectFile)))"
        "[]" "[(0x100, [0x10, 0x20, 0x30])]"]
    loadSegments_writes_segments
    [of "recording_sink 0x102"
        "setLoadMask 0xFFF (setLoadOffset 0x100 (addSegment ''text'' 0x1000 [0x10, 0x20, 0x30] 3
         (ObjectFile_new ''a.out'' 3 [0x10, 0x20, 0x30] UnknownArch UnknownOpSys
            :: 64 word ObjectFile)))"
        "[]" _ "[]"
        "\<lparr>name = ''text'', base = 0x1000, data = [0x10, 0x20, 0x30], size_seg = 3\<rparr>"
        "[]" "[]"]
  by (simp add: recording_sink_def setLoadMask_def setLoadOffset_def addSegment_def
      ObjectFile_new_def)

section \<open>Dispatch to the loaders\<close>

lemma tryLoaders_loop_first_accepts:
  "k < length loaders \<Longrightarrow> (loaders ! k) params obj_file = Accepted p \<Longrightarrow>
   (\<forall>j<k. (loaders ! j) params obj_file = Declined) \<Longrightarrow>
   tryLoaders_loop loaders params obj_file i invoked = (Inr p, invoked @ [i ..< i + Suc k])"
proof (induction loaders arbitrary: k i invoked)
  case Nil
  then show ?case by simp
next
  case (Cons l ls)
  show ?case
  proof (cases k)
    case 0
    with Cons.prems show ?thesis by simp
  next
    case (Suc k')
    with Cons.prems have first: "l params obj_file = Declined" by auto
    from Cons.prems Suc have "k' < length ls" "(ls ! k') params obj_file = Accepted p"
      "\<forall>j<k'. (ls ! j) params obj_file = Declined"
      by auto
    moreover have "[i ..< i + Suc k] = i # [Suc i ..< Suc i + Suc k']"
      using Suc by (simp add: upt_conv_Cons del: upt_Suc)
    ultimately show ?thesis
      using Cons.IH [of k' "Suc i" "invoked @ [i]"] first by (simp del: upt_Suc)
  qed
qed

lemma tryLoaders_loop_all_decline:
  "(\<forall>loader \<in> set loaders. loader params obj_file = Declined) \<Longrightarrow>
   tryLoaders_loop loaders params obj_file i invoked
     = (Inl NoCompatibleLoader, invoked @ [i ..< i + length loaders])"
proof (induction loaders arbitrary: i invoked)
  case Nil
  then show ?case by simp
next
  case (Cons l ls)
  then have "l params obj_file = Declined"
    and "\<forall>loader \<in> set ls. loader params obj_file = Declined"
    by simp_all
  moreover have "[i ..< i + length (l # ls)] = i # [Suc i ..< Suc i + length ls]"
    by (simp add: upt_conv_Cons del: upt_Suc)
  ultimately show ?case
    using Cons.IH [of "Suc i" "invoked @ [i]"] by (simp del: upt_Suc)
qed

text \<open>
  Claim C2. For every registry and every input, \<open>tryLoaders\<close> invokes the loaders in
  registration order. When the loader at position \<open>k\<close> accepts and those before it
  decline, the result is its Process and the loaders invoked are those at the
  positions \<open>0, \<dots>, k\<close>, none after it. When every loader declines, all were invoked
  in order and the call fails with "no compatible loader".
\<close>

theorem tryLoaders_first_compatible:
  "(k < length registry \<and> (registry ! k) params obj_file = Accepted p
      \<and> (\<forall>j<k. (registry ! j) params obj_file = Declined)
    \<longrightarrow> tryLoaders registry params obj_file = (Inr p, [0 ..< Suc k]))
   \<and> ((\<forall>loader \<in> set registry. loader params obj_file = Declined)
    \<longrightarrow> tryLoaders registry params obj_file
          = (Inl NoCompatibleLoader, [0 ..< length registry]))"
  using tryLoaders_loop_first_accepts [of k registry params obj_file p 0 "[]"]
    tryLoaders_loop_all_decline [of registry params obj_file 0 "[]"]
  by (simp add: tryLoaders_def)

text \<open>
  An Alpha loader, an Arm64 loader and a loader that takes everything, offered an Arm64
  image; the first two offered a Mips image.
\<close>

theorem tryLoaders_first_compatible_witness:
  "tryLoaders
     [\<lambda>pa ob. if getArch ob = Alpha then Accepted ''P0'' else Declined,
      \<lambda>pa ob. if getArch ob = Arm64 then Accepted ''P1'' else Declined,
      \<lambda>pa ob. Accepted ''P2'']
     () (ObjectFile_new ''X'' 0 [] Arm64 Linux :: 64 word ObjectFile)
     = (Inr ''P1'', [0, 1])
   \<and> tryLoaders
     [\<lambda>pa ob. if getArch ob = Alpha then Accepted ''P0'' else Declined,
      \<lambda>pa ob. if getArch ob = Arm64 then Accepted ''P1'' else Declined]
     () (ObjectFile_new ''X'' 0 [] Mips Linux :: 64 word ObjectFile)
     = (Inl NoCompatibleLoader, [0, 1])"
  using tryLoaders_first_compatible
    [of 1 "[\<lambda>pa ob. if getArch ob = Alpha then Accepted ''P0'' else Declined,
      \<lambda>pa ob. if getArch ob = Arm64 then Accepted ''P1'' else Declined,
      \<lambda>pa ob. Accepted ''P2'']"
      "()" "ObjectFile_new ''X'' 0 [] Arm64 Linux :: 64 word ObjectFile" "''P1''"]
    tryLoaders_first_compatible
    [of 0 "[\<lambda>pa ob. if getArch ob = Alpha then Accepted ''P0'' else Declined,
      \<lambda>pa ob. if getArch ob = Arm64 then Accepted ''P1'' else Declined]"
      "()" "ObjectFile_new ''X'' 0 [] Mips Linux :: 64 word ObjectFile"]
  by (simp add: upt_rec getArch_def ObjectFile_new_def)

section \<open>The factory on a raw blob\<close>

text \<open>
  Claim C6. For every input buffer and whatever the known formats are,
  \<open>createObjectFile\<close> with the raw-blob flag yields an Object File whose architecture and
  OS are unknown and which has exactly one segment, at base 0, with the input length as
  its size and the input buffer as its data; for a buffer of that length, these are all
  the bytes of the buffer.
\<close>

theorem raw_blob_object_file:
  fixes l :: "'a::len word"
  shows "\<exists>obj seg. createObjectFile formats fname l d True = Inr obj
       \<and> getArch obj = UnknownArch \<and> getOpSys obj = UnknownOpSys
       \<and> segments obj = [seg]
       \<and> base seg = 0 \<and> size_seg seg = l \<and> data seg = d
       \<and> (length d = unat l \<longrightarrow> unat (size_seg seg) = length d \<and> segment_bytes seg = d)"
  by (simp add: createObjectFile_def addSegment_def ObjectFile_new_def getArch_def
      getOpSys_def segment_bytes_def)

text \<open>The blob \<open>0x10, 0x20, 0x30\<close>.\<close>

theorem raw_blob_object_file_witness:
  "length [0x10, 0x20, 0x30 :: byte] = unat (3 :: 64 word)
   \<and> (\<exists>obj seg. createObjectFile [] ''blob.bin'' (3 :: 64 word) [0x10, 0x20, 0x30] True = Inr obj
        \<and> segments obj = [seg] \<and> base seg = 0
        \<and> unat (size_seg seg) = 3 \<and> segment_bytes seg = [0x10, 0x20, 0x30])"
  using raw_blob_object_file [of "[]" "''blob.bin''" "3 :: 64 word" "[0x10, 0x20, 0x30]"]
  by auto

end
